theory Spec2Isabelle
  imports Main "HOL-Library.Sublist" "HOL-Library.Multiset"
begin

section \<open>Strings and JavaScript values\<close>

text \<open>
  A JavaScript string is a sequence of UTF-16 code units. The model uses \<^typ>\<open>string\<close>,
  whose characters are the code units U+0000 to U+00FF (ASCII and Latin-1); \<open>length\<close> is
  the \<^verbatim>\<open>.length\<close> of the source. A value that may be \<^verbatim>\<open>undefined\<close> (a field of a parsed
  row, which is typed \<^verbatim>\<open>any\<close>) is a \<^typ>\<open>string option\<close>, \<open>None\<close> being \<^verbatim>\<open>undefined\<close>.
\<close>

datatype js_error =
    TypeError          \<comment> \<open>a method called on \<^verbatim>\<open>undefined\<close>\<close>
  | FetchRejected      \<comment> \<open>the promise of \<^verbatim>\<open>fetch\<close> rejects\<close>
  | FailedToFetchCSV   \<comment> \<open>\<^verbatim>\<open>throw new Error('Failed to fetch CSV')\<close>\<close>

definition truthy :: "string option \<Rightarrow> bool" where
  "truthy v = (case v of None \<Rightarrow> False | Some s \<Rightarrow> s \<noteq> [])"

text \<open>
  \<^verbatim>\<open>String.prototype.toLowerCase\<close> on the code units of the model: the ASCII capitals and
  the Latin-1 capitals U+00C0 to U+00DE (but the multiplication sign U+00D7) move up by 32.
\<close>

definition lower_char :: "char \<Rightarrow> char" where
  "lower_char c =
     (let n = (of_char c :: nat)
      in if (65 \<le> n \<and> n \<le> 90) \<or> (192 \<le> n \<and> n \<le> 222 \<and> n \<noteq> 215)
         then char_of (n + 32) else c)"

definition toLowerCase :: "string \<Rightarrow> string" where
  "toLowerCase s = map lower_char s"

text \<open>\<^verbatim>\<open>s.includes(t)\<close>: \<open>t\<close> occurs in \<open>s\<close> at some position, tried from the left.\<close>

fun includes_str :: "string \<Rightarrow> string \<Rightarrow> bool" where
  "includes_str [] t = (t = [])"
| "includes_str (c # cs) t = (prefix t (c # cs) \<or> includes_str cs t)"

section \<open>Video-link identifier extraction (utils.ts, as listed in INSTRUCTIONS.md)\<close>

text \<open>
  \<^verbatim>\<open>
  export const getYouTubeId = (url: string) => {
    const regExp = /^.*(youtu.be\/|v\/|u\/\w\/|embed\/|watch\?v=|&v=)([^#&?]*).*/;
    const match = url.match(regExp);
    return (match && match[2].length === 11) ? match[2] : null;
  };
  \<close>
  The regular expression has no flags. Its pieces are modelled one by one: an atom is a
  literal character, the dot (any character but a line terminator) or \<^verbatim>\<open>\w\<close>.
\<close>

definition is_line_terminator :: "char \<Rightarrow> bool" where
  "is_line_terminator c = (c = CHR 0x0A \<or> c = CHR 0x0D)"

definition is_word_char :: "char \<Rightarrow> bool" where
  "is_word_char c =
     (let n = (of_char c :: nat)
      in (48 \<le> n \<and> n \<le> 57) \<or> (65 \<le> n \<and> n \<le> 90) \<or> n = 95 \<or> (97 \<le> n \<and> n \<le> 122))"

definition is_delimiter :: "char \<Rightarrow> bool" where
  "is_delimiter c = (c = CHR ''#'' \<or> c = CHR ''&'' \<or> c = CHR ''?'')"

datatype atom = Lit char | AnyChar | WordChar

fun atom_matches :: "atom \<Rightarrow> char \<Rightarrow> bool" where
  "atom_matches (Lit a) c = (c = a)"
| "atom_matches AnyChar c = (\<not> is_line_terminator c)"
| "atom_matches WordChar c = is_word_char c"

text \<open>A sequence of atoms matched at the start of the text; the result is the text left.\<close>

fun match_atoms :: "atom list \<Rightarrow> string \<Rightarrow> string option" where
  "match_atoms [] s = Some s"
| "match_atoms (a # as) [] = None"
| "match_atoms (a # as) (c # cs) = (if atom_matches a c then match_atoms as cs else None)"

text \<open>The six alternatives of the first group, in the order of the source.\<close>

definition alternatives :: "atom list list" where
  "alternatives =
     [map Lit ''youtu'' @ [AnyChar] @ map Lit ''be/'',
      map Lit ''v/'',
      map Lit ''u/'' @ [WordChar] @ map Lit ''/'',
      map Lit ''embed/'',
      map Lit ''watch?v='',
      map Lit ''&v='']"

fun first_alternative :: "atom list list \<Rightarrow> string \<Rightarrow> string option" where
  "first_alternative [] s = None"
| "first_alternative (alt # alts) s =
     (case match_atoms alt s of Some r \<Rightarrow> Some r | None \<Rightarrow> first_alternative alts s)"

definition group1_at :: "string \<Rightarrow> string option" where
  "group1_at s = first_alternative alternatives s"

text \<open>
  \<^verbatim>\<open>^.*( ... )\<close>: the greedy prefix takes as many characters as it can (it stops before a
  line terminator) and gives them back one at a time, so the first group is tried at the
  rightmost position first. Once the group matches, \<^verbatim>\<open>([^#&?]*).*\<close> cannot fail, so that
  position is the match. The result is the text after the first group.
\<close>

fun match_from :: "string \<Rightarrow> string option" where
  "match_from [] = group1_at []"
| "match_from (c # cs) =
     (if is_line_terminator c then group1_at (c # cs)
      else (case match_from cs of Some r \<Rightarrow> Some r | None \<Rightarrow> group1_at (c # cs)))"

text \<open>A marker is a text that one alternative of the first group matches entirely.\<close>

definition is_marker :: "string \<Rightarrow> bool" where
  "is_marker m = (group1_at m = Some [])"

definition group2 :: "string \<Rightarrow> string" where
  "group2 rest = takeWhile (\<lambda>c. \<not> is_delimiter c) rest"

definition getYouTubeId :: "string \<Rightarrow> string option" where
  "getYouTubeId url =
     (case match_from url of
        None \<Rightarrow> None
      | Some rest \<Rightarrow> if length (group2 rest) = 11 then Some (group2 rest) else None)"

text \<open>
  The link shapes as the specification lists them, read literally: the short-link host,
  \<^verbatim>\<open>/v/\<close>, \<^verbatim>\<open>/u/<digit>/\<close>, \<^verbatim>\<open>/embed/\<close>, and the query parameters \<^verbatim>\<open>watch?v=\<close> and \<^verbatim>\<open>&v=\<close>.
  This definition follows the specification's words, not the source.
\<close>

definition listed_shape :: "string \<Rightarrow> bool" where
  "listed_shape url =
     (includes_str url ''youtu.be/'' \<or> includes_str url ''/v/'' \<or>
      list_ex (\<lambda>d. includes_str url (''/u/'' @ [d] @ ''/'')) ''0123456789'' \<or>
      includes_str url ''/embed/'' \<or> includes_str url ''watch?v='' \<or> includes_str url ''&v='')"

text \<open>
  \<^verbatim>\<open>
  export const getThumbnailUrl = (videoId: string) => {
    return `https://img.youtube.com/vi/${videoId}/maxresdefault.jpg`;
  };
  \<close>
\<close>

definition getThumbnailUrl :: "string \<Rightarrow> string" where
  "getThumbnailUrl videoId = ''https://img.youtube.com/vi/'' @ videoId @ ''/maxresdefault.jpg''"


section \<open>Dates and sorting\<close>

text \<open>
  \<^verbatim>\<open>new Date(v).getTime()\<close>, with \<open>None\<close> for NaN. The model covers the date-only form
  \<^verbatim>\<open>YYYY-MM-DD\<close> of ECMA-262, which is read as UTC midnight: the result is the day number
  since 1970-01-01 times the milliseconds of a day. Every other text is left to the
  implementation by ECMA-262; the model gives NaN for it, and no theorem below is about it.
\<close>

definition digit_value :: "char \<Rightarrow> nat option" where
  "digit_value c =
     (let n = (of_char c :: nat) in if 48 \<le> n \<and> n \<le> 57 then Some (n - 48) else None)"

fun digits_value :: "nat \<Rightarrow> string \<Rightarrow> nat option" where
  "digits_value acc [] = Some acc"
| "digits_value acc (c # cs) =
     (case digit_value c of None \<Rightarrow> None | Some d \<Rightarrow> digits_value (10 * acc + d) cs)"

definition is_leap_year :: "nat \<Rightarrow> bool" where
  "is_leap_year y = (y mod 4 = 0 \<and> (y mod 100 \<noteq> 0 \<or> y mod 400 = 0))"

definition days_in_month :: "nat \<Rightarrow> nat \<Rightarrow> nat" where
  "days_in_month y m =
     (if m = 2 then (if is_leap_year y then 29 else 28)
      else if m = 4 \<or> m = 6 \<or> m = 9 \<or> m = 11 then 30 else 31)"

definition days_from_civil :: "nat \<Rightarrow> nat \<Rightarrow> nat \<Rightarrow> int" where
  "days_from_civil y m d =
     (let y' = (if m \<le> 2 then int y - 1 else int y);
          era = y' div 400;
          yoe = y' - era * 400;
          doy = (153 * (if 2 < m then int m - 3 else int m + 9) + 2) div 5 + int d - 1;
          doe = yoe * 365 + yoe div 4 - yoe div 100 + doy
      in era * 146097 + doe - 719468)"

definition Date_getTime :: "string option \<Rightarrow> int option" where
  "Date_getTime v =
     (case v of
        None \<Rightarrow> None
      | Some s \<Rightarrow>
          if length s = 10 \<and> s ! 4 = CHR ''-'' \<and> s ! 7 = CHR ''-'' then
            (case (digits_value 0 (take 4 s), digits_value 0 (take 2 (drop 5 s)),
                   digits_value 0 (drop 8 s)) of
               (Some y, Some m, Some d) \<Rightarrow>
                 if 1 \<le> m \<and> m \<le> 12 \<and> 1 \<le> d \<and> d \<le> days_in_month y m
                 then Some (86400000 * days_from_civil y m d) else None
             | _ \<Rightarrow> None)
          else None)"

text \<open>
  \<^verbatim>\<open>Array.prototype.sort(comparefn)\<close>: a comparator result that is NaN counts as \<open>0\<close>, a
  result \<open>\<le> 0\<close> keeps the first argument in front, and the sort is stable. With a
  consistent comparator every such sort gives the same array; the model is the insertion
  sort.
\<close>

definition sort_order :: "int option \<Rightarrow> int" where
  "sort_order v = (case v of None \<Rightarrow> 0 | Some n \<Rightarrow> n)"

fun insert_sorted :: "('a \<Rightarrow> 'a \<Rightarrow> int option) \<Rightarrow> 'a \<Rightarrow> 'a list \<Rightarrow> 'a list" where
  "insert_sorted comparefn x [] = [x]"
| "insert_sorted comparefn x (y # ys) =
     (if sort_order (comparefn x y) \<le> 0 then x # y # ys
      else y # insert_sorted comparefn x ys)"

definition array_sort :: "('a \<Rightarrow> 'a \<Rightarrow> int option) \<Rightarrow> 'a list \<Rightarrow> 'a list" where
  "array_sort comparefn xs = foldr (insert_sorted comparefn) xs []"

section \<open>Records and the normalizer (App.tsx, useDevotionals)\<close>

text \<open>
  \<^verbatim>\<open>export type Language = 'tl' | 'en';\<close> and the interface \<^verbatim>\<open>Devotional\<close> of types.ts.
  The object the loader builds copies fields of a row typed \<^verbatim>\<open>any\<close>, so each copied field
  may be \<^verbatim>\<open>undefined\<close>; \<open>is_Devotional\<close> says that a record has the declared shape.
\<close>

datatype Language = TL | EN

record devotional =
  ident :: string
  date :: "string option"
  title :: "string option"
  speaker :: "string option"
  language :: Language
  scripture :: "string option"
  videoUrl :: "string option"
  thumbnailUrl :: string

definition is_Devotional :: "devotional \<Rightarrow> bool" where
  "is_Devotional d =
     (date d \<noteq> None \<and> title d \<noteq> None \<and> speaker d \<noteq> None \<and> scripture d \<noteq> None \<and>
      videoUrl d \<noteq> None)"

text \<open>A row of the parser's \<^verbatim>\<open>results.data\<close>: an object keyed by the header names.\<close>

type_synonym row = "string \<Rightarrow> string option"

text \<open>The decimal digits of the index in \<^verbatim>\<open>`sheet-${index}`\<close>.\<close>

fun decimal :: "nat \<Rightarrow> string" where
  "decimal n =
     (if n < 10 then [char_of (48 + n)] else decimal (n div 10) @ [char_of (48 + n mod 10)])"

declare decimal.simps [simp del]

definition placeholder :: string where
  "placeholder = ''https://picsum.photos/800/600?grayscale''"

text \<open>\<^verbatim>\<open>row['Language']?.toLowerCase() === 'en' ? 'en' : 'tl'\<close>\<close>

definition normalize_language :: "string option \<Rightarrow> Language" where
  "normalize_language v =
     (case v of None \<Rightarrow> TL | Some l \<Rightarrow> if toLowerCase l = ''en'' then EN else TL)"

text \<open>\<^verbatim>\<open>.filter((row: any) => row['Date'] && row['Title'])\<close>\<close>

definition row_valid :: "row \<Rightarrow> bool" where
  "row_valid row = (truthy (row ''Date'') \<and> truthy (row ''Title''))"

text \<open>
  The callback of \<^verbatim>\<open>.map((row: any, index: number) => ...)\<close>. \<^verbatim>\<open>getYouTubeId\<close> calls
  \<^verbatim>\<open>url.match\<close>, which throws a TypeError when the row has no \<^verbatim>\<open>Video URL\<close> field.
\<close>

definition normalize_row :: "row \<Rightarrow> nat \<Rightarrow> js_error + devotional" where
  "normalize_row row index =
     (case row ''Video URL'' of
        None \<Rightarrow> Inl TypeError
      | Some url \<Rightarrow>
          let videoId = (case getYouTubeId url of Some i \<Rightarrow> i | None \<Rightarrow> [])
          in Inr \<lparr>ident = ''sheet-'' @ decimal index,
                  date = row ''Date'',
                  title = row ''Title'',
                  speaker = row ''Speaker'',
                  language = normalize_language (row ''Language''),
                  scripture = row ''Scripture'',
                  videoUrl = row ''Video URL'',
                  thumbnailUrl =
                    (if videoId \<noteq> [] then getThumbnailUrl videoId else placeholder)\<rparr>)"

text \<open>\<^verbatim>\<open>Array.prototype.map\<close> with the index; the first exception ends it.\<close>

fun array_map :: "('a \<Rightarrow> nat \<Rightarrow> js_error + 'b) \<Rightarrow> nat \<Rightarrow> 'a list \<Rightarrow> js_error + 'b list" where
  "array_map f index [] = Inr []"
| "array_map f index (x # xs) =
     (case f x index of
        Inl e \<Rightarrow> Inl e
      | Inr y \<Rightarrow> (case array_map f (Suc index) xs of Inl e \<Rightarrow> Inl e | Inr ys \<Rightarrow> Inr (y # ys)))"

text \<open>
  \<^verbatim>\<open>(a, b) => new Date(b.date).getTime() - new Date(a.date).getTime()\<close>; a difference
  with NaN is NaN.
\<close>

definition compareDates :: "devotional \<Rightarrow> devotional \<Rightarrow> int option" where
  "compareDates a b =
     (case (Date_getTime (date b), Date_getTime (date a)) of
        (Some tb, Some ta) \<Rightarrow> Some (tb - ta)
      | _ \<Rightarrow> None)"

text \<open>The body of the \<^verbatim>\<open>complete\<close> callback up to \<^verbatim>\<open>sortedData\<close>.\<close>

definition parse_complete :: "row list \<Rightarrow> js_error + devotional list" where
  "parse_complete data =
     (case array_map normalize_row 0 (filter row_valid data) of
        Inl e \<Rightarrow> Inl e
      | Inr parsedData \<Rightarrow> Inr (array_sort compareDates parsedData))"

section \<open>The feed loader (App.tsx, useDevotionals)\<close>

text \<open>
  The three pieces of state of the hook, and what the environment does: \<^verbatim>\<open>fetch\<close> rejects
  or resolves with a response (its \<^verbatim>\<open>ok\<close> flag and its text), and the parser calls either
  \<^verbatim>\<open>error\<close> or \<^verbatim>\<open>complete\<close> with the rows. The parser is handed a text and calls back
  before it returns, so an exception of the \<^verbatim>\<open>complete\<close> callback leaves the \<^verbatim>\<open>then\<close>
  handler and reaches \<^verbatim>\<open>catch\<close>.
\<close>

record hook_state =
  devotionals :: "devotional list"
  loading :: bool
  error :: "string option"

datatype fetch_outcome = Rejects | Response bool string

datatype parse_outcome = ParseError | ParseComplete "row list"

definition fetch_then ::
  "hook_state \<Rightarrow> fetch_outcome \<Rightarrow> (string \<Rightarrow> parse_outcome) \<Rightarrow> js_error + hook_state" where
  "fetch_then st fetched Papa_parse =
     (case fetched of
        Rejects \<Rightarrow> Inl FetchRejected
      | Response ok csvText \<Rightarrow>
          if \<not> ok then Inl FailedToFetchCSV
          else
            (case Papa_parse csvText of
               ParseError \<Rightarrow> Inr (st\<lparr>error := Some ''Failed to parse data'', loading := False\<rparr>)
             | ParseComplete data \<Rightarrow>
                 (case parse_complete data of
                    Inl e \<Rightarrow> Inl e
                  | Inr sortedData \<Rightarrow> Inr (st\<lparr>devotionals := sortedData, loading := False\<rparr>))))"

text \<open>
  The state once the effect has run to its end. \<open>url\<close> is \<^verbatim>\<open>GOOGLE_SHEET_CSV_URL\<close> and
  \<open>mock\<close> is \<^verbatim>\<open>MOCK_DEVOTIONALS\<close> of constants.ts, which is a parameter here.
\<close>

definition useDevotionals ::
  "string \<Rightarrow> devotional list \<Rightarrow> fetch_outcome \<Rightarrow> (string \<Rightarrow> parse_outcome) \<Rightarrow> hook_state" where
  "useDevotionals url mock fetched Papa_parse =
     (let st0 = \<lparr>devotionals = [], loading = True, error = None\<rparr>
      in if url = [] then st0\<lparr>devotionals := mock, loading := False\<rparr>
         else
           let st1 = st0\<lparr>loading := True\<rparr>
           in (case fetch_then st1 fetched Papa_parse of
                 Inr st \<Rightarrow> st
               | Inl err \<Rightarrow>
                   st1\<lparr>error := Some ''Failed to load devotionals'',
                       devotionals := mock,
                       loading := False\<rparr>))"

section \<open>The list view model (App.tsx, DevotionalsPage)\<close>

datatype filter_choice = All | Only Language

text \<open>
  The callback of \<^verbatim>\<open>devotionals.filter(d => ...)\<close>. \<^verbatim>\<open>||\<close> evaluates its right operand
  only when the left one is false; \<^verbatim>\<open>toLowerCase\<close> on \<^verbatim>\<open>undefined\<close> throws a TypeError.
\<close>

definition matches :: "filter_choice \<Rightarrow> string \<Rightarrow> devotional \<Rightarrow> js_error + bool" where
  "matches flt searchTerm d =
     (let matchesLang = (flt = All \<or> flt = Only (language d))
      in case title d of
           None \<Rightarrow> Inl TypeError
         | Some t \<Rightarrow>
             if includes_str (toLowerCase t) (toLowerCase searchTerm) then Inr matchesLang
             else
               (case speaker d of
                  None \<Rightarrow> Inl TypeError
                | Some s \<Rightarrow>
                    Inr (matchesLang \<and> includes_str (toLowerCase s) (toLowerCase searchTerm))))"

fun array_filter :: "('a \<Rightarrow> js_error + bool) \<Rightarrow> 'a list \<Rightarrow> js_error + 'a list" where
  "array_filter p [] = Inr []"
| "array_filter p (x # xs) =
     (case p x of
        Inl e \<Rightarrow> Inl e
      | Inr keep \<Rightarrow>
          (case array_filter p xs of
             Inl e \<Rightarrow> Inl e
           | Inr ys \<Rightarrow> Inr (if keep then x # ys else ys)))"

definition filteredDevotionals ::
  "filter_choice \<Rightarrow> string \<Rightarrow> devotional list \<Rightarrow> js_error + devotional list" where
  "filteredDevotionals flt searchTerm ds = array_filter (matches flt searchTerm) ds"

text \<open>
  Which sections the page renders:
  \<^verbatim>\<open>{loading && ...}\<close>, \<^verbatim>\<open>{error && !loading && ...}\<close>, \<^verbatim>\<open>{!loading && !error && ...}\<close>.
\<close>

definition shows_loading :: "hook_state \<Rightarrow> bool" where
  "shows_loading st = loading st"

definition shows_error :: "hook_state \<Rightarrow> bool" where
  "shows_error st = (truthy (error st) \<and> \<not> loading st)"

definition shows_grid :: "hook_state \<Rightarrow> bool" where
  "shows_grid st = (\<not> loading st \<and> \<not> truthy (error st))"

section \<open>The specification's words for sorting and filtering\<close>


text \<open>
  A record passes when no language filter is selected or its language is the selected
  one, and the search term is empty or is, case-insensitively, a substring of its title
  or of its speaker.
\<close>

definition substring_ci :: "string \<Rightarrow> string option \<Rightarrow> bool" where
  "substring_ci searchTerm field =
     (case field of
        None \<Rightarrow> False
      | Some s \<Rightarrow> sublist (toLowerCase searchTerm) (toLowerCase s))"

definition spec_passes :: "filter_choice \<Rightarrow> string \<Rightarrow> devotional \<Rightarrow> bool" where
  "spec_passes flt searchTerm d =
     ((flt = All \<or> flt = Only (language d)) \<and>
      (searchTerm = [] \<or> substring_ci searchTerm (title d) \<or>
       substring_ci searchTerm (speaker d)))"


section \<open>Evaluation on concrete inputs\<close>

lemmas extract_eval = is_line_terminator_def is_delimiter_def group1_at_def alternatives_def is_word_char_def is_marker_def


lemmas loader_eval = parse_complete_def row_valid_def truthy_def normalize_row_def normalize_language_def
  getYouTubeId_def group2_def getThumbnailUrl_def placeholder_def array_sort_def compareDates_def sort_order_def
  toLowerCase_def lower_char_def


section \<open>Properties of the identifier extraction\<close>

subsection \<open>Matching a sequence of atoms\<close>

lemma match_atoms_append:
  "match_atoms (as @ bs) s = (case match_atoms as s of None \<Rightarrow> None | Some r \<Rightarrow> match_atoms bs r)"
  by (induction as s rule: match_atoms.induct) auto

lemma match_lits: "match_atoms (map Lit m) s = Some r \<longleftrightarrow> s = m @ r"
proof (induction m arbitrary: s)
  case Nil
  show ?case by auto
next
  case (Cons a m)
  show ?case by (cases s) (auto simp: Cons.IH)
qed

lemma match_single: "match_atoms [a] s = Some r \<longleftrightarrow> (\<exists>c. atom_matches a c \<and> s = c # r)"
  by (cases s) auto

lemma match_seq:
  "match_atoms (as @ bs) s = Some r \<longleftrightarrow> (\<exists>r1. match_atoms as s = Some r1 \<and> match_atoms bs r1 = Some r)"
  by (simp add: match_atoms_append split: option.splits)

lemma first_alternative_Some:
  "first_alternative alts s = Some r \<Longrightarrow> \<exists>alt \<in> set alts. match_atoms alt s = Some r"
  by (induction alts) (auto split: option.splits)

lemma match_lit_any_lit:
  assumes "match_atoms (map Lit a @ [x] @ map Lit b) s = Some r"
  shows "\<exists>c. atom_matches x c \<and> s = a @ [c] @ b @ r"
proof -
  from assms obtain r1 where 1: "match_atoms (map Lit a) s = Some r1"
      and 2: "match_atoms ([x] @ map Lit b) r1 = Some r"
    unfolding match_seq by blast
  from 2 obtain r2 where 3: "match_atoms [x] r1 = Some r2" and 4: "match_atoms (map Lit b) r2 = Some r"
    unfolding match_seq by blast
  from 3 obtain c where c: "atom_matches x c" "r1 = c # r2" unfolding match_single by blast
  from 1 have "s = a @ r1" by (simp only: match_lits)
  moreover from 4 have "r2 = b @ r" by (simp only: match_lits)
  ultimately have "s = a @ [c] @ b @ r" using c(2) by simp
  with c(1) show ?thesis by blast
qed

subsection \<open>The first group at a position\<close>

lemma group1_at_shapes:
  assumes "group1_at s = Some r"
  shows "(\<exists>c. \<not> is_line_terminator c \<and> s = ''youtu'' @ [c] @ ''be/'' @ r) \<or>
     s = ''v/'' @ r \<or>
     (\<exists>w. is_word_char w \<and> s = ''u/'' @ [w] @ ''/'' @ r) \<or>
     s = ''embed/'' @ r \<or> s = ''watch?v='' @ r \<or> s = ''&v='' @ r"
proof -
  from assms obtain alt where "alt \<in> set alternatives" "match_atoms alt s = Some r"
    unfolding group1_at_def by (blast dest: first_alternative_Some)
  then consider
      "match_atoms (map Lit ''youtu'' @ [AnyChar] @ map Lit ''be/'') s = Some r"
    | "match_atoms (map Lit ''v/'') s = Some r"
    | "match_atoms (map Lit ''u/'' @ [WordChar] @ map Lit ''/'') s = Some r"
    | "match_atoms (map Lit ''embed/'') s = Some r"
    | "match_atoms (map Lit ''watch?v='') s = Some r"
    | "match_atoms (map Lit ''&v='') s = Some r"
    unfolding alternatives_def by (simp only: set_simps insert_iff empty_iff) blast
  then show ?thesis
  proof cases
    case 1
    from match_lit_any_lit[OF this] show ?thesis by (simp only: atom_matches.simps) blast
  next
    case 2
    then have "s = ''v/'' @ r" by (simp only: match_lits)
    then show ?thesis by blast
  next
    case 3
    from match_lit_any_lit[OF this] show ?thesis by (simp only: atom_matches.simps) blast
  next
    case 4
    then have "s = ''embed/'' @ r" by (simp only: match_lits)
    then show ?thesis by blast
  next
    case 5
    then have "s = ''watch?v='' @ r" by (simp only: match_lits)
    then show ?thesis by blast
  next
    case 6
    then have "s = ''&v='' @ r" by (simp only: match_lits)
    then show ?thesis by blast
  qed
qed

lemma group1_at_youtu: "\<not> is_line_terminator c \<Longrightarrow> group1_at (''youtu'' @ [c] @ ''be/'' @ r) = Some r"
  by (simp add: group1_at_def alternatives_def)

lemma group1_at_v: "group1_at (''v/'' @ r) = Some r"
  by (simp add: group1_at_def alternatives_def)

lemma group1_at_u: "is_word_char w \<Longrightarrow> group1_at (''u/'' @ [w] @ ''/'' @ r) = Some r"
  by (simp add: group1_at_def alternatives_def)

lemma group1_at_embed: "group1_at (''embed/'' @ r) = Some r"
  by (simp add: group1_at_def alternatives_def)

lemma group1_at_watch: "group1_at (''watch?v='' @ r) = Some r"
  by (simp add: group1_at_def alternatives_def)

lemma group1_at_amp: "group1_at (''&v='' @ r) = Some r"
  by (simp add: group1_at_def alternatives_def)

lemmas group1_at_intros = group1_at_youtu group1_at_v group1_at_u group1_at_embed group1_at_watch group1_at_amp

lemma group1_at_append:
  assumes "group1_at m = Some []"
  shows "group1_at (m @ r) = Some r"
  using group1_at_shapes[OF assms] by (auto simp: group1_at_intros simp del: append.simps intro: group1_at_intros)

lemma group1_at_Nil: "group1_at [] = None"
  by (simp add: group1_at_def alternatives_def)

subsection \<open>The greedy prefix and the second group\<close>

lemma match_from_prefix:
  "list_all (\<lambda>c. \<not> is_line_terminator c) pre \<Longrightarrow> match_from s = Some r \<Longrightarrow> match_from (pre @ s) = Some r"
  by (induction pre) auto

lemma match_from_last:
  assumes "group1_at (c # cs) = Some r" and "match_from cs = None"
  shows "match_from (c # cs) = Some r"
  using assms by simp

lemma group2_ident:
  "list_all (\<lambda>c. \<not> is_delimiter c) vid \<Longrightarrow> suf = [] \<or> is_delimiter (hd suf) \<Longrightarrow> group2 (vid @ suf) = vid"
proof (induction vid)
  case Nil
  then show ?case by (cases suf) (auto simp: group2_def)
next
  case (Cons a vid)
  then show ?case by (simp add: group2_def)
qed

text \<open>
  The marker that begins last on the first line decides the result, whatever stands before
  it: the identifier is what follows that marker up to the next delimiter, if that has
  eleven characters.
\<close>

lemma getYouTubeId_last_marker:
  assumes pre: "list_all (\<lambda>c. \<not> is_line_terminator c) pre"
      and m: "is_marker m"
      and last: "match_from (tl (m @ rest)) = None"
  shows "getYouTubeId (pre @ m @ rest) =
           (if length (group2 rest) = 11 then Some (group2 rest) else None)"
proof -
  from m have g: "group1_at (m @ rest) = Some rest"
    unfolding is_marker_def by (rule group1_at_append)
  with group1_at_Nil have "m @ rest \<noteq> []" by auto
  then obtain c cs where eq: "m @ rest = c # cs" by (cases "m @ rest") auto
  with g last have "match_from (m @ rest) = Some rest" by simp
  with pre have "match_from (pre @ m @ rest) = Some rest" by (rule match_from_prefix)
  then show ?thesis by (simp add: getYouTubeId_def)
qed

section \<open>Properties of lowercasing\<close>

lemma of_char_lower_char:
  "(of_char (lower_char c) :: nat) =
     (if (65 \<le> (of_char c :: nat) \<and> (of_char c :: nat) \<le> 90) \<or>
         (192 \<le> (of_char c :: nat) \<and> (of_char c :: nat) \<le> 222 \<and> (of_char c :: nat) \<noteq> 215)
      then of_char c + 32 else of_char c)"
  by (simp add: lower_char_def Let_def)

lemma lower_char_e: "lower_char c = CHR ''e'' \<longleftrightarrow> c = CHR ''e'' \<or> c = CHR ''E''"
proof -
  have "lower_char c = CHR ''e'' \<longleftrightarrow> (of_char (lower_char c) :: nat) = of_char CHR ''e''"
    by (simp only: of_char_eq_iff)
  also have "\<dots> \<longleftrightarrow> (of_char c :: nat) = of_char CHR ''e'' \<or> (of_char c :: nat) = of_char CHR ''E''"
    unfolding of_char_lower_char by (simp split: if_splits) arith
  also have "\<dots> \<longleftrightarrow> c = CHR ''e'' \<or> c = CHR ''E''"
    by (simp only: of_char_eq_iff)
  finally show ?thesis .
qed

lemma lower_char_n: "lower_char c = CHR ''n'' \<longleftrightarrow> c = CHR ''n'' \<or> c = CHR ''N''"
proof -
  have "lower_char c = CHR ''n'' \<longleftrightarrow> (of_char (lower_char c) :: nat) = of_char CHR ''n''"
    by (simp only: of_char_eq_iff)
  also have "\<dots> \<longleftrightarrow> (of_char c :: nat) = of_char CHR ''n'' \<or> (of_char c :: nat) = of_char CHR ''N''"
    unfolding of_char_lower_char by (simp split: if_splits) arith
  also have "\<dots> \<longleftrightarrow> c = CHR ''n'' \<or> c = CHR ''N''"
    by (simp only: of_char_eq_iff)
  finally show ?thesis .
qed

lemma toLowerCase_en:
  "toLowerCase s = ''en'' \<longleftrightarrow> s = ''en'' \<or> s = ''En'' \<or> s = ''eN'' \<or> s = ''EN''"
proof -
  have "toLowerCase s = ''en'' \<longleftrightarrow> (\<exists>a b. s = [a, b] \<and> lower_char a = CHR ''e'' \<and> lower_char b = CHR ''n'')"
    unfolding toLowerCase_def by (auto simp: map_eq_Cons_conv)
  also have "\<dots> \<longleftrightarrow> s = ''en'' \<or> s = ''En'' \<or> s = ''eN'' \<or> s = ''EN''"
    unfolding lower_char_e lower_char_n by blast
  finally show ?thesis .
qed

lemma normalize_language_cases:
  "normalize_language v =
     (if v = Some ''en'' \<or> v = Some ''En'' \<or> v = Some ''eN'' \<or> v = Some ''EN'' then EN else TL)"
  by (cases v) (simp_all add: normalize_language_def toLowerCase_en)

section \<open>Properties of sorting, mapping and the normalizer\<close>

lemma mset_insert_sorted: "mset (insert_sorted cmp x xs) = add_mset x (mset xs)"
  by (induction xs) auto

lemma mset_array_sort: "mset (array_sort cmp xs) = mset xs"
  unfolding array_sort_def by (induction xs) (auto simp: mset_insert_sorted)

lemma set_array_sort: "set (array_sort cmp xs) = set xs"
  using mset_array_sort[of cmp xs] by (metis set_mset_mset)

lemma length_array_sort: "length (array_sort cmp xs) = length xs"
  using mset_array_sort[of cmp xs] by (metis size_mset)







lemma array_map_Inr:
  "array_map f i xs = Inr ys \<Longrightarrow> list_all2 (\<lambda>x y. \<exists>k. f x k = Inr y) xs ys"
  by (induction xs arbitrary: i ys) (auto split: sum.splits)

lemma array_map_total:
  "list_all (\<lambda>x. \<forall>k. \<exists>y. f x k = Inr y) xs \<Longrightarrow> \<exists>ys. array_map f i xs = Inr ys"
proof (induction xs arbitrary: i)
  case Nil
  show ?case by simp
next
  case (Cons x xs)
  from Cons.prems obtain y where y: "f x i = Inr y" by auto
  from Cons.prems have "list_all (\<lambda>x. \<forall>k. \<exists>y. f x k = Inr y) xs" by simp
  from Cons.IH[OF this] obtain ys where "array_map f (Suc i) xs = Inr ys" by blast
  with y show ?case by simp
qed

lemma list_all2_source:
  "list_all2 P xs ys \<Longrightarrow> y \<in> set ys \<Longrightarrow> \<exists>x\<in>set xs. P x y"
  by (induction rule: list_all2_induct) auto

lemma normalize_row_Inr:
  assumes "normalize_row row index = Inr d"
  shows "date d = row ''Date''" "title d = row ''Title''" "speaker d = row ''Speaker''"
        "language d = normalize_language (row ''Language'')" "scripture d = row ''Scripture''"
        "videoUrl d = row ''Video URL''" "row ''Video URL'' \<noteq> None"
        "ident d = ''sheet-'' @ decimal index"
  using assms by (auto simp: normalize_row_def Let_def split: option.splits)

lemma parse_complete_Inr:
  assumes "parse_complete data = Inr recs"
  obtains parsed where "array_map normalize_row 0 (filter row_valid data) = Inr parsed"
    and "recs = array_sort compareDates parsed"
  using assms by (auto simp: parse_complete_def split: sum.splits)

lemma parse_complete_from_rows:
  assumes "parse_complete data = Inr recs" and "d \<in> set recs"
  shows "\<exists>row\<in>set data. row_valid row \<and> (\<exists>k. normalize_row row k = Inr d)"
proof -
  from assms(1) obtain parsed where p: "array_map normalize_row 0 (filter row_valid data) = Inr parsed"
    and r: "recs = array_sort compareDates parsed" by (rule parse_complete_Inr)
  from assms(2) r have "d \<in> set parsed" by (simp add: set_array_sort)
  with array_map_Inr[OF p] obtain row where "row \<in> set (filter row_valid data)" "\<exists>k. normalize_row row k = Inr d"
    by (blast dest: list_all2_source)
  then show ?thesis by auto
qed

lemma normalize_row_Inl: "normalize_row row index = Inl e \<Longrightarrow> e = TypeError \<and> row ''Video URL'' = None"
  by (auto simp: normalize_row_def Let_def split: option.splits)

lemma array_map_Inl:
  "array_map f i xs = Inl e \<Longrightarrow> \<exists>x\<in>set xs. \<exists>k. f x k = Inl e"
  by (induction xs arbitrary: i) (auto split: sum.splits)

lemma array_map_error:
  "x \<in> set xs \<Longrightarrow> \<forall>k. \<exists>e. f x k = Inl e \<Longrightarrow> \<exists>e. array_map f i xs = Inl e"
proof (induction xs arbitrary: i)
  case Nil
  then show ?case by simp
next
  case (Cons y ys)
  show ?case
  proof (cases "f y i")
    case (Inl e)
    then show ?thesis by simp
  next
    case (Inr z)
    with Cons.prems have "x \<noteq> y" by (metis Inl_Inr_False)
    with Cons.prems have "x \<in> set ys" by auto
    from Cons.IH[OF this Cons.prems(2), of "Suc i"] Inr show ?thesis by auto
  qed
qed

text \<open>
  For every row whose video link is a text the normalizer produces a record, whether or
  not an identifier can be extracted: its thumbnail address is the fixed pattern around
  the extracted identifier, which has 11 characters, or else the placeholder address.
  Equal identifiers give equal addresses. When every valid row has a video link, the load
  keeps one record for each valid row.
\<close>

lemma normalize_row_with_link:
  "(row ''Video URL'' = Some url \<longrightarrow>
      (\<exists>d. normalize_row row index = Inr d \<and> videoUrl d = Some url \<and>
           thumbnailUrl d =
             (case getYouTubeId url of
                Some i \<Rightarrow> ''https://img.youtube.com/vi/'' @ i @ ''/maxresdefault.jpg''
              | None \<Rightarrow> ''https://picsum.photos/800/600?grayscale'')))
   \<and> (getYouTubeId url = Some i \<longrightarrow> length i = 11)
   \<and> (getThumbnailUrl i = getThumbnailUrl j \<longleftrightarrow> i = j)
   \<and> ((\<forall>r\<in>set data. row_valid r \<longrightarrow> r ''Video URL'' \<noteq> None) \<longrightarrow>
        (\<exists>recs. parse_complete data = Inr recs \<and> length recs = length (filter row_valid data)))"
proof (intro conjI impI)
  assume u: "row ''Video URL'' = Some url"
  show "\<exists>d. normalize_row row index = Inr d \<and> videoUrl d = Some url \<and>
           thumbnailUrl d =
             (case getYouTubeId url of
                Some i \<Rightarrow> ''https://img.youtube.com/vi/'' @ i @ ''/maxresdefault.jpg''
              | None \<Rightarrow> ''https://picsum.photos/800/600?grayscale'')"
    using u by (auto simp: normalize_row_def Let_def getYouTubeId_def getThumbnailUrl_def placeholder_def
        split: option.splits)
next
  assume "getYouTubeId url = Some i"
  then show "length i = 11" by (auto simp: getYouTubeId_def split: option.splits if_splits)
next
  show "getThumbnailUrl i = getThumbnailUrl j \<longleftrightarrow> i = j" by (simp add: getThumbnailUrl_def)
next
  assume a: "\<forall>r\<in>set data. row_valid r \<longrightarrow> r ''Video URL'' \<noteq> None"
  have "list_all (\<lambda>r. \<forall>k. \<exists>y. normalize_row r k = Inr y) (filter row_valid data)"
    using a by (auto simp: list_all_iff normalize_row_def Let_def)
  from array_map_total[OF this] obtain parsed where p: "array_map normalize_row 0 (filter row_valid data) = Inr parsed"
    by blast
  from array_map_Inr[OF p] have "length parsed = length (filter row_valid data)"
    by (simp add: list_all2_lengthD)
  with p show "\<exists>recs. parse_complete data = Inr recs \<and> length recs = length (filter row_valid data)"
    by (simp add: parse_complete_def length_array_sort)
qed

section \<open>Properties of the view model\<close>

lemma includes_str_sublist: "includes_str s t \<longleftrightarrow> sublist t s"
  by (induction s) (auto simp: sublist_Cons_right)

lemma includes_str_length: "includes_str s t \<Longrightarrow> length t \<le> length s"
  by (induction s) (auto dest: prefix_length_le)

lemma matches_defined:
  assumes "title d = Some t" and "speaker d = Some sp"
  shows "matches flt searchTerm d = Inr (spec_passes flt searchTerm d)"
proof (cases "searchTerm = []")
  case True
  then show ?thesis using assms
    by (simp add: matches_def Let_def spec_passes_def includes_str_sublist toLowerCase_def)
next
  case False
  then show ?thesis using assms
    by (auto simp: matches_def Let_def spec_passes_def substring_ci_def includes_str_sublist)
qed

lemma array_filter_Inr:
  "\<forall>x\<in>set xs. p x = Inr (q x) \<Longrightarrow> array_filter p xs = Inr (filter q xs)"
  by (induction xs) auto

lemma array_filter_Inl:
  "array_filter p xs = Inl e \<Longrightarrow> \<exists>x\<in>set xs. p x = Inl e"
  by (induction xs) (auto split: sum.splits)

lemma array_filter_error:
  "x \<in> set xs \<Longrightarrow> p x = Inl e \<Longrightarrow> \<exists>e'. array_filter p xs = Inl e'"
  by (induction xs) (auto split: sum.splits)

lemma matches_Inl: "matches flt searchTerm d = Inl e \<Longrightarrow> e = TypeError"
  by (auto simp: matches_def Let_def split: option.splits if_splits)

section \<open>The claims\<close>

text \<open>
  Claim C1, evaluated on the code. With a data-source address configured, when \<^verbatim>\<open>fetch\<close>
  rejects or the response has a non-success status, the \<^verbatim>\<open>catch\<close> handler runs: the loading
  flag ends false and the record collection is the fallback dataset, and the error state
  is set to \<^verbatim>\<open>Failed to load devotionals\<close>. The page then renders the error section and not
  the grid, so the fallback records are not displayed.
\<close>

theorem useDevotionals_fetch_failure:
  assumes "url \<noteq> []" and "fetched = Rejects \<or> fetched = Response False body"
  shows "useDevotionals url mock fetched Papa_parse =
           \<lparr>devotionals = mock, loading = False, error = Some ''Failed to load devotionals''\<rparr>
         \<and> shows_error (useDevotionals url mock fetched Papa_parse)
         \<and> \<not> shows_grid (useDevotionals url mock fetched Papa_parse)"
  using assms
  by (auto simp: useDevotionals_def fetch_then_def shows_error_def shows_grid_def truthy_def)

theorem useDevotionals_fetch_failure_witness:
  "useDevotionals ''https://docs.google.com/spreadsheets/d/e/key/pub?output=csv''
     [\<lparr>ident = ''1'', date = Some ''2024-05-20'', title = Some ''Faith in the Storm'',
       speaker = Some ''Juan dela Cruz'', language = TL, scripture = Some ''Mark 4:35-41'',
       videoUrl = Some ''https://youtu.be/dQw4w9WgXcQ'',
       thumbnailUrl = ''https://img.youtube.com/vi/dQw4w9WgXcQ/maxresdefault.jpg''\<rparr>]
     Rejects (\<lambda>_. ParseError)
   = \<lparr>devotionals =
        [\<lparr>ident = ''1'', date = Some ''2024-05-20'', title = Some ''Faith in the Storm'',
          speaker = Some ''Juan dela Cruz'', language = TL, scripture = Some ''Mark 4:35-41'',
          videoUrl = Some ''https://youtu.be/dQw4w9WgXcQ'',
          thumbnailUrl = ''https://img.youtube.com/vi/dQw4w9WgXcQ/maxresdefault.jpg''\<rparr>],
      loading = False, error = Some ''Failed to load devotionals''\<rparr>
   \<and> error (useDevotionals ''https://docs.google.com/spreadsheets/d/e/key/pub?output=csv'' []
               (Response False ''Not Found'') (\<lambda>_. ParseError))
       = Some ''Failed to load devotionals''
   \<and> \<not> shows_grid (useDevotionals ''https://docs.google.com/spreadsheets/d/e/key/pub?output=csv'' []
               (Response False ''Not Found'') (\<lambda>_. ParseError))"
proof -
  let ?url = "''https://docs.google.com/spreadsheets/d/e/key/pub?output=csv''"
  let ?mock = "[\<lparr>ident = ''1'', date = Some ''2024-05-20'', title = Some ''Faith in the Storm'',
       speaker = Some ''Juan dela Cruz'', language = TL, scripture = Some ''Mark 4:35-41'',
       videoUrl = Some ''https://youtu.be/dQw4w9WgXcQ'',
       thumbnailUrl = ''https://img.youtube.com/vi/dQw4w9WgXcQ/maxresdefault.jpg''\<rparr>]"
  have u: "?url \<noteq> []" by simp
  have a: "useDevotionals ?url ?mock Rejects (\<lambda>_. ParseError) =
      \<lparr>devotionals = ?mock, loading = False, error = Some ''Failed to load devotionals''\<rparr>"
    using useDevotionals_fetch_failure[OF u, where fetched = Rejects and mock = ?mock
        and Papa_parse = "\<lambda>_. ParseError"] by simp
  note f = useDevotionals_fetch_failure[OF u, where fetched = "Response False ''Not Found''"
        and body = "''Not Found''" and mock = "[]" and Papa_parse = "\<lambda>_. ParseError"]
  have b: "error (useDevotionals ?url [] (Response False ''Not Found'') (\<lambda>_. ParseError)) =
      Some ''Failed to load devotionals''"
    using f by simp
  have c: "\<not> shows_grid (useDevotionals ?url [] (Response False ''Not Found'') (\<lambda>_. ParseError))"
    using f by blast
  from a b c show ?thesis by blast
qed

text \<open>
  Claim C2. When the retrieval succeeds and the parser reports a failure, the load ends
  with the loading flag false, the error state set to the non-empty message
  \<^verbatim>\<open>Failed to parse data\<close> and the record collection still empty, whatever the fallback
  dataset is.
\<close>

theorem useDevotionals_parse_failure:
  assumes "url \<noteq> []" and "Papa_parse csvText = ParseError"
  shows "useDevotionals url mock (Response True csvText) Papa_parse =
           \<lparr>devotionals = [], loading = False, error = Some ''Failed to parse data''\<rparr>"
  using assms by (simp add: useDevotionals_def fetch_then_def)

theorem useDevotionals_parse_failure_witness:
  "useDevotionals ''https://docs.google.com/spreadsheets/d/e/key/pub?output=csv''
     [\<lparr>ident = ''1'', date = Some ''2024-05-20'', title = Some ''Faith in the Storm'',
       speaker = Some ''Juan dela Cruz'', language = TL, scripture = Some ''Mark 4:35-41'',
       videoUrl = Some ''https://youtu.be/dQw4w9WgXcQ'',
       thumbnailUrl = ''https://img.youtube.com/vi/dQw4w9WgXcQ/maxresdefault.jpg''\<rparr>]
     (Response True ''Date,Title'') (\<lambda>_. ParseError)
   = \<lparr>devotionals = [], loading = False, error = Some ''Failed to parse data''\<rparr>"
  by (rule useDevotionals_parse_failure) simp_all

text \<open>
  Claim C3. A link text of a recognized shape is some text without a line terminator, one
  of the markers (the short-link host, \<^verbatim>\<open>v/\<close>, \<^verbatim>\<open>u/<word character>/\<close>, \<^verbatim>\<open>embed/\<close>,
  \<^verbatim>\<open>watch?v=\<close> or \<^verbatim>\<open>&v=\<close>), the identifier, and then the end of the text or a delimiter
  \<^verbatim>\<open>#\<close>, \<^verbatim>\<open>&\<close> or \<^verbatim>\<open>?\<close>; no marker begins after this one. For every such text the
  identifier is the captured segment, and \<open>getYouTubeId\<close> returns it exactly when it has
  11 characters and returns absence for every other length.
\<close>

theorem getYouTubeId_recognized_shape:
  assumes "list_all (\<lambda>c. \<not> is_line_terminator c) pre"
      and "is_marker m"
      and "list_all (\<lambda>c. \<not> is_delimiter c) vid"
      and "suf = [] \<or> is_delimiter (hd suf)"
      and "match_from (tl (m @ vid @ suf)) = None"
  shows "getYouTubeId (pre @ m @ vid @ suf) = (if length vid = 11 then Some vid else None)"
  using getYouTubeId_last_marker[OF assms(1,2), of "vid @ suf"] assms(5) group2_ident[OF assms(3,4)] by simp

theorem getYouTubeId_recognized_shape_witness:
  "getYouTubeId ''https://www.youtube.com/watch?v=dQw4w9WgXcQ&t=42s'' = Some ''dQw4w9WgXcQ''
   \<and> getYouTubeId ''https://youtu.be/dQw4w9WgXcQ'' = Some ''dQw4w9WgXcQ''
   \<and> getYouTubeId ''https://www.youtube.com/v/dQw4w9WgXcQ'' = Some ''dQw4w9WgXcQ''
   \<and> getYouTubeId ''https://www.youtube.com/user/x#p/u/1/dQw4w9WgXcQ'' = Some ''dQw4w9WgXcQ''
   \<and> getYouTubeId ''https://www.youtube.com/embed/dQw4w9WgXcQ?rel=0'' = Some ''dQw4w9WgXcQ''
   \<and> getYouTubeId ''https://www.youtube.com/watch?feature=share&v=dQw4w9WgXcQ'' = Some ''dQw4w9WgXcQ''
   \<and> getYouTubeId ''https://youtu.be/dQw4w9WgXc'' = None
   \<and> getYouTubeId ''https://www.youtube.com/watch?v=dQw4w9WgXcQx'' = None"
proof -
  have 1: "getYouTubeId (''https://www.youtube.com/'' @ ''watch?v='' @ ''dQw4w9WgXcQ'' @ ''&t=42s'') = Some ''dQw4w9WgXcQ''"
    by (subst getYouTubeId_recognized_shape) (simp_all add: extract_eval)
  have 2: "getYouTubeId (''https://'' @ ''youtu.be/'' @ ''dQw4w9WgXcQ'' @ []) = Some ''dQw4w9WgXcQ''"
    by (subst getYouTubeId_recognized_shape) (simp_all add: extract_eval)
  have 3: "getYouTubeId (''https://www.youtube.com/'' @ ''v/'' @ ''dQw4w9WgXcQ'' @ []) = Some ''dQw4w9WgXcQ''"
    by (subst getYouTubeId_recognized_shape) (simp_all add: extract_eval)
  have 4: "getYouTubeId (''https://www.youtube.com/user/x#p/'' @ ''u/1/'' @ ''dQw4w9WgXcQ'' @ []) = Some ''dQw4w9WgXcQ''"
    by (subst getYouTubeId_recognized_shape) (simp_all add: extract_eval)
  have 5: "getYouTubeId (''https://www.youtube.com/'' @ ''embed/'' @ ''dQw4w9WgXcQ'' @ ''?rel=0'') = Some ''dQw4w9WgXcQ''"
    by (subst getYouTubeId_recognized_shape) (simp_all add: extract_eval)
  have 6: "getYouTubeId (''https://www.youtube.com/watch?feature=share'' @ ''&v='' @ ''dQw4w9WgXcQ'' @ []) = Some ''dQw4w9WgXcQ''"
    by (subst getYouTubeId_recognized_shape) (simp_all add: extract_eval)
  have 7: "getYouTubeId (''https://'' @ ''youtu.be/'' @ ''dQw4w9WgXc'' @ []) = None"
    by (subst getYouTubeId_recognized_shape) (simp_all add: extract_eval)
  have 8: "getYouTubeId (''https://www.youtube.com/'' @ ''watch?v='' @ ''dQw4w9WgXcQx'' @ []) = None"
    by (subst getYouTubeId_recognized_shape) (simp_all add: extract_eval)
  from 1 2 3 4 5 6 7 8 show ?thesis by simp
qed

text \<open>
  Claim C4. Every record of a loaded collection has a non-empty date and a non-empty
  title. A raw row whose Date or Title field is missing or empty is dropped before the
  normalizer sees it: with or without such a row the callback gives the same result, and
  so does the whole load; in particular the row does not make the load fail.
\<close>

theorem parse_complete_title_date:
  "(parse_complete data = Inr recs \<and> d \<in> set recs \<longrightarrow>
      (\<exists>dt t. date d = Some dt \<and> dt \<noteq> [] \<and> title d = Some t \<and> t \<noteq> [])) \<and>
   (row ''Date'' = None \<or> row ''Date'' = Some [] \<or> row ''Title'' = None \<or> row ''Title'' = Some [] \<longrightarrow>
      parse_complete (xs @ row # ys) = parse_complete (xs @ ys) \<and>
      useDevotionals url mock (Response True csvText) (\<lambda>_. ParseComplete (xs @ row # ys)) =
      useDevotionals url mock (Response True csvText) (\<lambda>_. ParseComplete (xs @ ys)))"
proof (intro conjI impI)
  assume a: "parse_complete data = Inr recs \<and> d \<in> set recs"
  with parse_complete_from_rows[of data recs d]
  obtain row k where "row_valid row" "normalize_row row k = Inr d" by blast
  with normalize_row_Inr(1,2)[of row k d]
  have "truthy (date d)" "truthy (title d)" by (simp_all add: row_valid_def)
  then show "\<exists>dt t. date d = Some dt \<and> dt \<noteq> [] \<and> title d = Some t \<and> t \<noteq> []"
    by (auto simp: truthy_def split: option.splits)
next
  assume "row ''Date'' = None \<or> row ''Date'' = Some [] \<or> row ''Title'' = None \<or> row ''Title'' = Some []"
  then have "\<not> row_valid row" by (auto simp: row_valid_def truthy_def)
  then have eq: "parse_complete (xs @ row # ys) = parse_complete (xs @ ys)"
    by (simp add: parse_complete_def)
  then show "parse_complete (xs @ row # ys) = parse_complete (xs @ ys)" .
  from eq show "useDevotionals url mock (Response True csvText) (\<lambda>_. ParseComplete (xs @ row # ys)) =
      useDevotionals url mock (Response True csvText) (\<lambda>_. ParseComplete (xs @ ys))"
    by (simp only: useDevotionals_def fetch_then_def parse_outcome.case fetch_outcome.case)
qed

theorem parse_complete_title_date_witness:
  "parse_complete
     [[''Title'' \<mapsto> ''No date''],
      [''Date'' \<mapsto> ''2024-05-01'', ''Title'' \<mapsto> ''Faith'', ''Video URL'' \<mapsto> ''https://youtu.be/dQw4w9WgXcQ''],
      [''Date'' \<mapsto> ''2024-05-02'', ''Title'' \<mapsto> '''']]
   = parse_complete
     [[''Date'' \<mapsto> ''2024-05-01'', ''Title'' \<mapsto> ''Faith'', ''Video URL'' \<mapsto> ''https://youtu.be/dQw4w9WgXcQ'']]
   \<and> (case parse_complete
            [[''Date'' \<mapsto> ''2024-05-01'', ''Title'' \<mapsto> ''Faith'', ''Video URL'' \<mapsto> ''https://youtu.be/dQw4w9WgXcQ'']] of
         Inl e \<Rightarrow> False
       | Inr recs \<Rightarrow> map date recs = [Some ''2024-05-01''] \<and> map title recs = [Some ''Faith''] \<and>
                     list_all (\<lambda>d. truthy (date d) \<and> truthy (title d)) recs)"
proof -
  let ?bad1 = "[''Title'' \<mapsto> ''No date'']"
  let ?good = "[''Date'' \<mapsto> ''2024-05-01'', ''Title'' \<mapsto> ''Faith'', ''Video URL'' \<mapsto> ''https://youtu.be/dQw4w9WgXcQ'']"
  let ?bad2 = "[''Date'' \<mapsto> ''2024-05-02'', ''Title'' \<mapsto> '''']"
  have 1: "parse_complete ([] @ ?bad1 # [?good, ?bad2]) = parse_complete ([] @ [?good, ?bad2])"
    using parse_complete_title_date[where row = ?bad1 and xs = "[]" and ys = "[?good, ?bad2]"] by simp
  have 2: "parse_complete ([?good] @ ?bad2 # []) = parse_complete ([?good] @ [])"
    using parse_complete_title_date[where row = ?bad2 and xs = "[?good]" and ys = "[]"] by simp
  from 1 2 have eq: "parse_complete [?bad1, ?good, ?bad2] = parse_complete [?good]" by simp
  have "\<exists>d. normalize_row ?good 0 = Inr d \<and> date d = Some ''2024-05-01'' \<and> title d = Some ''Faith''"
    by (simp add: normalize_row_def Let_def)
  then obtain d where d: "normalize_row ?good 0 = Inr d" "date d = Some ''2024-05-01''"
    "title d = Some ''Faith''" by blast
  have v: "row_valid ?good" by (simp add: row_valid_def truthy_def)
  have pc: "parse_complete [?good] = Inr [d]"
    unfolding parse_complete_def by (simp add: v d array_sort_def)
  from parse_complete_title_date[of "[?good]" "[d]" d] pc
  have "\<exists>dt t. date d = Some dt \<and> dt \<noteq> [] \<and> title d = Some t \<and> t \<noteq> []" by simp
  then have "truthy (date d) \<and> truthy (title d)" by (auto simp: truthy_def)
  with eq pc d show ?thesis by simp
qed

text \<open>
  Claim C5. Language normalization gives the English value exactly for the inputs whose
  lowercase form is \<^verbatim>\<open>en\<close>, which are \<^verbatim>\<open>en\<close>, \<^verbatim>\<open>En\<close>, \<^verbatim>\<open>eN\<close> and \<^verbatim>\<open>EN\<close>, and the Tagalog
  value for every other input, among them \<^verbatim>\<open>tl\<close>, the empty text, \<^verbatim>\<open>xyz\<close> and a missing
  field. The language of every normalized record is computed this way, so it is one of
  the two values.
\<close>

theorem normalize_language_two_values:
  "normalize_language v =
     (if v = Some ''en'' \<or> v = Some ''En'' \<or> v = Some ''eN'' \<or> v = Some ''EN'' then EN else TL)
   \<and> (normalize_language v = EN \<longleftrightarrow> (\<exists>s. v = Some s \<and> toLowerCase s = ''en''))
   \<and> (normalize_language v = EN \<or> normalize_language v = TL)
   \<and> normalize_language (Some ''tl'') = TL \<and> normalize_language (Some '''') = TL
   \<and> normalize_language (Some ''xyz'') = TL \<and> normalize_language None = TL
   \<and> (normalize_row row index = Inr d \<longrightarrow> language d = normalize_language (row ''Language''))"
proof (intro conjI impI)
  show "normalize_language v =
     (if v = Some ''en'' \<or> v = Some ''En'' \<or> v = Some ''eN'' \<or> v = Some ''EN'' then EN else TL)"
    by (rule normalize_language_cases)
  show "normalize_language v = EN \<longleftrightarrow> (\<exists>s. v = Some s \<and> toLowerCase s = ''en'')"
    by (cases v) (simp_all add: normalize_language_def)
  show "normalize_language v = EN \<or> normalize_language v = TL"
    by (cases "normalize_language v") simp_all
  show "normalize_language (Some ''tl'') = TL" "normalize_language (Some '''') = TL"
       "normalize_language (Some ''xyz'') = TL" "normalize_language None = TL"
    by (simp_all add: normalize_language_cases)
  assume "normalize_row row index = Inr d"
  then show "language d = normalize_language (row ''Language'')" by (rule normalize_row_Inr(4))
qed

theorem normalize_language_two_values_witness:
  "normalize_language (Some ''EN'') = EN \<and> normalize_language (Some ''en'') = EN \<and>
   normalize_language (Some ''En'') = EN \<and> normalize_language (Some ''tl'') = TL \<and>
   normalize_language (Some '''') = TL \<and> normalize_language (Some ''xyz'') = TL \<and>
   normalize_language None = TL \<and>
   (case normalize_row [''Date'' \<mapsto> ''2024-05-20'', ''Title'' \<mapsto> ''Faith'', ''Language'' \<mapsto> ''En'',
                        ''Video URL'' \<mapsto> ''''] 0 of
      Inl e \<Rightarrow> False | Inr d \<Rightarrow> language d = EN)"
proof -
  let ?row = "[''Date'' \<mapsto> ''2024-05-20'', ''Title'' \<mapsto> ''Faith'', ''Language'' \<mapsto> ''En'',
                        ''Video URL'' \<mapsto> '''']"
  obtain d where d: "normalize_row ?row 0 = Inr d" by (simp add: normalize_row_def Let_def)
  from normalize_language_two_values[of "Some ''En''" ?row 0 d] d
  have "language d = EN" by simp
  with d normalize_language_two_values[of "Some ''EN''"] normalize_language_two_values[of "Some ''en''"]
    normalize_language_two_values[of "Some ''En''"]
  show ?thesis by simp
qed



text \<open>
  Claim C7. For every collection of records that have a title and a speaker, every
  language filter selection and every search term, the view model returns exactly the
  records that pass both filters of the specification, in the order of the collection.
\<close>

theorem filteredDevotionals_spec:
  assumes "\<forall>d\<in>set ds. title d \<noteq> None \<and> speaker d \<noteq> None"
  shows "filteredDevotionals flt searchTerm ds = Inr (filter (spec_passes flt searchTerm) ds)"
  unfolding filteredDevotionals_def
proof (rule array_filter_Inr, rule ballI)
  fix d assume "d \<in> set ds"
  with assms obtain t sp where "title d = Some t" "speaker d = Some sp" by auto
  then show "matches flt searchTerm d = Inr (spec_passes flt searchTerm d)"
    by (rule matches_defined)
qed

theorem filteredDevotionals_spec_witness:
  "filteredDevotionals (Only EN) ''''
     [\<lparr>ident = ''1'', date = Some ''2024-05-20'', title = Some ''Faith'', speaker = Some ''Ana'',
       language = EN, scripture = Some ''Mark 4'', videoUrl = Some '''', thumbnailUrl = ''''\<rparr>,
      \<lparr>ident = ''2'', date = Some ''2024-05-01'', title = Some ''Pananampalataya'',
       speaker = Some ''Juan'', language = TL, scripture = Some ''Mark 5'', videoUrl = Some '''',
       thumbnailUrl = ''''\<rparr>]
   = Inr [\<lparr>ident = ''1'', date = Some ''2024-05-20'', title = Some ''Faith'', speaker = Some ''Ana'',
       language = EN, scripture = Some ''Mark 4'', videoUrl = Some '''', thumbnailUrl = ''''\<rparr>]
   \<and> filteredDevotionals All ''FAITH''
     [\<lparr>ident = ''1'', date = Some ''2024-05-20'', title = Some ''Faith'', speaker = Some ''Ana'',
       language = EN, scripture = Some ''Mark 4'', videoUrl = Some '''', thumbnailUrl = ''''\<rparr>,
      \<lparr>ident = ''2'', date = Some ''2024-05-01'', title = Some ''Pananampalataya'',
       speaker = Some ''Juan'', language = TL, scripture = Some ''Mark 5'', videoUrl = Some '''',
       thumbnailUrl = ''''\<rparr>]
   = Inr [\<lparr>ident = ''1'', date = Some ''2024-05-20'', title = Some ''Faith'', speaker = Some ''Ana'',
       language = EN, scripture = Some ''Mark 4'', videoUrl = Some '''', thumbnailUrl = ''''\<rparr>]
   \<and> filteredDevotionals All ''''
     [\<lparr>ident = ''1'', date = Some ''2024-05-20'', title = Some ''Faith'', speaker = Some ''Ana'',
       language = EN, scripture = Some ''Mark 4'', videoUrl = Some '''', thumbnailUrl = ''''\<rparr>,
      \<lparr>ident = ''2'', date = Some ''2024-05-01'', title = Some ''Pananampalataya'',
       speaker = Some ''Juan'', language = TL, scripture = Some ''Mark 5'', videoUrl = Some '''',
       thumbnailUrl = ''''\<rparr>]
   = Inr [\<lparr>ident = ''1'', date = Some ''2024-05-20'', title = Some ''Faith'', speaker = Some ''Ana'',
       language = EN, scripture = Some ''Mark 4'', videoUrl = Some '''', thumbnailUrl = ''''\<rparr>,
      \<lparr>ident = ''2'', date = Some ''2024-05-01'', title = Some ''Pananampalataya'',
       speaker = Some ''Juan'', language = TL, scripture = Some ''Mark 5'', videoUrl = Some '''',
       thumbnailUrl = ''''\<rparr>]"
proof -
  let ?d1 = "\<lparr>ident = ''1'', date = Some ''2024-05-20'', title = Some ''Faith'', speaker = Some ''Ana'',
       language = EN, scripture = Some ''Mark 4'', videoUrl = Some '''', thumbnailUrl = ''''\<rparr>"
  let ?d2 = "\<lparr>ident = ''2'', date = Some ''2024-05-01'', title = Some ''Pananampalataya'',
       speaker = Some ''Juan'', language = TL, scripture = Some ''Mark 5'', videoUrl = Some '''',
       thumbnailUrl = ''''\<rparr>"
  have h: "\<forall>d\<in>set [?d1, ?d2]. title d \<noteq> None \<and> speaker d \<noteq> None" by simp
  have l: "toLowerCase ''FAITH'' = ''faith''" "toLowerCase ''Faith'' = ''faith''"
    "toLowerCase ''Pananampalataya'' = ''pananampalataya''" "toLowerCase ''Ana'' = ''ana''"
    "toLowerCase ''Juan'' = ''juan''"
    by (simp_all add: toLowerCase_def lower_char_def char_of_eq_iff)
  have 1: "filter (spec_passes (Only EN) '''') [?d1, ?d2] = [?d1]"
    by (simp add: spec_passes_def)
  have 2: "filter (spec_passes All ''FAITH'') [?d1, ?d2] = [?d1]"
    by (simp add: spec_passes_def substring_ci_def l includes_str_sublist[symmetric])
  have 3: "filter (spec_passes All '''') [?d1, ?d2] = [?d1, ?d2]"
    by (simp add: spec_passes_def)
  from filteredDevotionals_spec[OF h, of "Only EN" "''''"] filteredDevotionals_spec[OF h, of All "''FAITH''"]
    filteredDevotionals_spec[OF h, of All "''''"] 1 2 3
  show ?thesis by (simp only: simp_thms)
qed

text \<open>
  Claim C8, evaluated on the code. For a row whose video link is a text the thumbnail is
  derived as the claim says and the record is kept (\<open>normalize_row_with_link\<close> above).
  A valid row with no \<^verbatim>\<open>Video URL\<close> field is not kept with the placeholder:
  \<^verbatim>\<open>getYouTubeId\<close> calls \<^verbatim>\<open>match\<close> on \<^verbatim>\<open>undefined\<close>, the callback throws a TypeError, and
  the load ends in the \<^verbatim>\<open>catch\<close> handler, with every record of the feed replaced by the
  fallback dataset and the error state set. The Language field of the same row is read
  with \<^verbatim>\<open>?.\<close> and does not throw when it is missing.
\<close>

theorem parse_complete_missing_video_url:
  assumes "row \<in> set data" and "row_valid row" and "row ''Video URL'' = None"
      and "url \<noteq> []" and "Papa_parse csvText = ParseComplete data"
  shows "normalize_row row index = Inl TypeError
       \<and> parse_complete data = Inl TypeError
       \<and> useDevotionals url mock (Response True csvText) Papa_parse =
           \<lparr>devotionals = mock, loading = False, error = Some ''Failed to load devotionals''\<rparr>"
proof -
  from assms(3) have n: "normalize_row row k = Inl TypeError" for k
    by (simp add: normalize_row_def)
  from assms(1,2) have "row \<in> set (filter row_valid data)" by simp
  then obtain e where e: "array_map normalize_row 0 (filter row_valid data) = Inl e"
    using array_map_error[of row "filter row_valid data" normalize_row 0] n by blast
  from array_map_Inl[OF e] normalize_row_Inl have "e = TypeError" by blast
  with e have pc: "parse_complete data = Inl TypeError" by (simp add: parse_complete_def)
  with assms(4,5) have "useDevotionals url mock (Response True csvText) Papa_parse =
           \<lparr>devotionals = mock, loading = False, error = Some ''Failed to load devotionals''\<rparr>"
    by (simp add: useDevotionals_def fetch_then_def)
  with n pc show ?thesis by simp
qed

theorem parse_complete_missing_video_url_witness:
  "normalize_row [''Date'' \<mapsto> ''2024-05-01'', ''Title'' \<mapsto> ''Hope''] 1 = Inl TypeError
   \<and> parse_complete
        [[''Date'' \<mapsto> ''2024-05-20'', ''Title'' \<mapsto> ''Faith'',
          ''Video URL'' \<mapsto> ''https://youtu.be/dQw4w9WgXcQ''],
         [''Date'' \<mapsto> ''2024-05-01'', ''Title'' \<mapsto> ''Hope'']] = Inl TypeError
   \<and> useDevotionals ''https://docs.google.com/spreadsheets/d/e/key/pub?output=csv'' []
        (Response True ''Date,Title,Video URL'')
        (\<lambda>_. ParseComplete
           [[''Date'' \<mapsto> ''2024-05-20'', ''Title'' \<mapsto> ''Faith'',
             ''Video URL'' \<mapsto> ''https://youtu.be/dQw4w9WgXcQ''],
            [''Date'' \<mapsto> ''2024-05-01'', ''Title'' \<mapsto> ''Hope'']])
       = \<lparr>devotionals = [], loading = False, error = Some ''Failed to load devotionals''\<rparr>"
proof -
  let ?good = "[''Date'' \<mapsto> ''2024-05-20'', ''Title'' \<mapsto> ''Faith'',
          ''Video URL'' \<mapsto> ''https://youtu.be/dQw4w9WgXcQ'']"
  let ?row = "[''Date'' \<mapsto> ''2024-05-01'', ''Title'' \<mapsto> ''Hope'']"
  have 1: "?row \<in> set [?good, ?row]" by simp
  have 2: "row_valid ?row" by (simp add: row_valid_def truthy_def)
  have 3: "?row ''Video URL'' = None" by simp
  have 4: "''https://docs.google.com/spreadsheets/d/e/key/pub?output=csv'' \<noteq> []" by simp
  have 5: "(\<lambda>_. ParseComplete [?good, ?row]) ''Date,Title,Video URL'' = ParseComplete [?good, ?row]"
    by simp
  from parse_complete_missing_video_url[OF 1 2 3 4, of "\<lambda>_. ParseComplete [?good, ?row]"
      "''Date,Title,Video URL''" 1 "[]", OF 5]
  show ?thesis .
qed

text \<open>
  Claim C9. For a row with a date, a title and a video link but no Speaker field, the
  loader produces a record whose speaker is absent, which is not of the declared shape.
  For every search term that does not occur in the lowercased title, the filter callback
  then throws a TypeError, and so does the filtering of any collection that holds the
  record; such a search term always exists.
\<close>

theorem missing_speaker:
  assumes "row ''Date'' = Some dt" "dt \<noteq> []" "row ''Title'' = Some t" "t \<noteq> []"
      and "row ''Video URL'' = Some url" and "row ''Speaker'' = None"
  shows "\<exists>d. parse_complete [row] = Inr [d] \<and> speaker d = None \<and> \<not> is_Devotional d \<and>
           (\<forall>flt searchTerm ds.
              \<not> includes_str (toLowerCase t) (toLowerCase searchTerm) \<and> d \<in> set ds \<longrightarrow>
              matches flt searchTerm d = Inl TypeError \<and>
              filteredDevotionals flt searchTerm ds = Inl TypeError) \<and>
           (\<forall>flt. filteredDevotionals flt (t @ ''!'') [d] = Inl TypeError)"
proof -
  from assms(5) obtain d where d: "normalize_row row 0 = Inr d"
    by (auto simp: normalize_row_def Let_def)
  from assms(1-4) have v: "row_valid row" by (simp add: row_valid_def truthy_def)
  with d have pc: "parse_complete [row] = Inr [d]"
    by (simp add: parse_complete_def array_sort_def)
  from normalize_row_Inr[OF d] assms have sp: "speaker d = None" and ti: "title d = Some t"
    by simp_all
  from sp have nd: "\<not> is_Devotional d" by (simp add: is_Devotional_def)
  have m: "matches flt searchTerm d = Inl TypeError"
    if "\<not> includes_str (toLowerCase t) (toLowerCase searchTerm)" for flt searchTerm
    using that sp ti by (simp add: matches_def)
  have f: "filteredDevotionals flt searchTerm ds = Inl TypeError"
    if "\<not> includes_str (toLowerCase t) (toLowerCase searchTerm)" "d \<in> set ds" for flt searchTerm ds
  proof -
    from that(2) m[OF that(1), of flt]
    obtain e' where e': "array_filter (matches flt searchTerm) ds = Inl e'"
      using array_filter_error[of d ds "matches flt searchTerm" TypeError] by blast
    from array_filter_Inl[OF this] matches_Inl have "e' = TypeError" by blast
    with e' show ?thesis by (simp add: filteredDevotionals_def)
  qed
  have n: "\<not> includes_str (toLowerCase t) (toLowerCase (t @ ''!''))"
    using includes_str_length[of "toLowerCase t" "toLowerCase (t @ ''!'')"]
    by (auto simp: toLowerCase_def)
  have "filteredDevotionals flt (t @ ''!'') [d] = Inl TypeError" for flt
    using f[OF n, of "[d]"] by simp
  with pc sp nd m f show ?thesis by blast
qed

theorem missing_speaker_witness:
  "(case parse_complete [[''Date'' \<mapsto> ''2024-05-20'', ''Title'' \<mapsto> ''Faith'',
                           ''Video URL'' \<mapsto> ''https://youtu.be/dQw4w9WgXcQ'']] of
      Inl e \<Rightarrow> False
    | Inr ds \<Rightarrow> map speaker ds = [None] \<and> list_all (\<lambda>d. \<not> is_Devotional d) ds \<and>
                 filteredDevotionals All ''hope'' ds = Inl TypeError \<and>
                 filteredDevotionals (Only EN) ''Faith!'' ds = Inl TypeError)"
proof -
  let ?row = "[''Date'' \<mapsto> ''2024-05-20'', ''Title'' \<mapsto> ''Faith'',
                           ''Video URL'' \<mapsto> ''https://youtu.be/dQw4w9WgXcQ'']"
  have n: "\<not> includes_str (toLowerCase ''Faith'') (toLowerCase ''hope'')"
    by (simp add: toLowerCase_def lower_char_def char_of_eq_iff)
  from missing_speaker[where row = ?row and dt = "''2024-05-20''" and t = "''Faith''"
      and url = "''https://youtu.be/dQw4w9WgXcQ''"]
  obtain d where d: "parse_complete [?row] = Inr [d]" "speaker d = None" "\<not> is_Devotional d"
    and m: "\<And>flt searchTerm ds. \<not> includes_str (toLowerCase ''Faith'') (toLowerCase searchTerm) \<Longrightarrow>
             d \<in> set ds \<Longrightarrow> filteredDevotionals flt searchTerm ds = Inl TypeError"
    and e: "\<And>flt. filteredDevotionals flt (''Faith'' @ ''!'') [d] = Inl TypeError"
    by auto
  from m[OF n, of "[d]" All] have 1: "filteredDevotionals All ''hope'' [d] = Inl TypeError" by simp
  from e[of "Only EN"] have 2: "filteredDevotionals (Only EN) ''Faith!'' [d] = Inl TypeError" by simp
  from d 1 2 show ?thesis by simp
qed

text \<open>
  Claim C10. Markers are found anywhere on the first line and the one that begins last is
  the one captured, whatever markers stand before it; the dot of the short-link host
  matches any character that is not a line terminator. So a text with \<^verbatim>\<open>youtu\<close>, any such
  character, \<^verbatim>\<open>be/\<close> and then 11 characters without a delimiter yields these 11 characters,
  although a text like \<^verbatim>\<open>youtuXbe/abcdefghijk\<close> has none of the listed link shapes.
\<close>

theorem getYouTubeId_wildcard_marker:
  assumes "list_all (\<lambda>c. \<not> is_line_terminator c) pre"
      and "\<not> is_line_terminator c"
      and "list_all (\<lambda>c. \<not> is_delimiter c) vid" and "length vid = 11"
      and "suf = [] \<or> is_delimiter (hd suf)"
      and "match_from (tl (''youtu'' @ [c] @ ''be/'' @ vid @ suf)) = None"
  shows "getYouTubeId (pre @ ''youtu'' @ [c] @ ''be/'' @ vid @ suf) = Some vid"
proof -
  from assms(2) have m: "is_marker (''youtu'' @ [c] @ ''be/'')"
    by (simp add: is_marker_def group1_at_def alternatives_def)
  from assms(6) have "match_from (tl ((''youtu'' @ [c] @ ''be/'') @ vid @ suf)) = None" by simp
  from getYouTubeId_last_marker[OF assms(1) m this] group2_ident[OF assms(3,5)] assms(4)
  show ?thesis by simp
qed

theorem getYouTubeId_wildcard_marker_witness:
  "\<not> listed_shape ''youtuXbe/abcdefghijk''
   \<and> getYouTubeId ''youtuXbe/abcdefghijk'' = Some ''abcdefghijk''
   \<and> getYouTubeId ''https://youtu.be/AAAAAAAAAAA?x=youtu-be/BBBBBBBBBBB&t=1'' = Some ''BBBBBBBBBBB''"
proof -
  have 0: "\<not> listed_shape ''youtuXbe/abcdefghijk''"
    by (simp add: listed_shape_def)
  have 1: "getYouTubeId ([] @ ''youtu'' @ [CHR ''X''] @ ''be/'' @ ''abcdefghijk'' @ []) = Some ''abcdefghijk''"
    by (rule getYouTubeId_wildcard_marker) (simp_all add: extract_eval)
  have 2: "getYouTubeId (''https://youtu.be/AAAAAAAAAAA?x='' @ ''youtu'' @ [CHR ''-''] @ ''be/'' @ ''BBBBBBBBBBB'' @ ''&t=1'') = Some ''BBBBBBBBBBB''"
    by (rule getYouTubeId_wildcard_marker) (simp_all add: extract_eval)
  from 0 1 2 show ?thesis by simp
qed

end
